theory Spec2Isabelle
  imports Complex_Main
begin

section \<open>Data model\<close>

text \<open>
  The landmark enumeration of the pose library (\<^verbatim>\<open>mp.solutions.pose.PoseLandmark\<close>).
  Both source files only name its members; the members and their integer values are
  those of the library, an integer enumeration numbered from 0.
\<close>

datatype PoseLandmark =
    NOSE | LEFT_EYE_INNER | LEFT_EYE | LEFT_EYE_OUTER
  | RIGHT_EYE_INNER | RIGHT_EYE | RIGHT_EYE_OUTER
  | LEFT_EAR | RIGHT_EAR | MOUTH_LEFT | MOUTH_RIGHT
  | LEFT_SHOULDER | RIGHT_SHOULDER | LEFT_ELBOW | RIGHT_ELBOW
  | LEFT_WRIST | RIGHT_WRIST | LEFT_PINKY | RIGHT_PINKY
  | LEFT_INDEX | RIGHT_INDEX | LEFT_THUMB | RIGHT_THUMB
  | LEFT_HIP | RIGHT_HIP | LEFT_KNEE | RIGHT_KNEE
  | LEFT_ANKLE | RIGHT_ANKLE | LEFT_HEEL | RIGHT_HEEL
  | LEFT_FOOT_INDEX | RIGHT_FOOT_INDEX

text \<open>The \<^verbatim>\<open>.value\<close> attribute of an enumeration member.\<close>

fun enum_value :: "PoseLandmark \<Rightarrow> nat" where
  "enum_value NOSE = 0"
| "enum_value LEFT_EYE_INNER = 1"
| "enum_value LEFT_EYE = 2"
| "enum_value LEFT_EYE_OUTER = 3"
| "enum_value RIGHT_EYE_INNER = 4"
| "enum_value RIGHT_EYE = 5"
| "enum_value RIGHT_EYE_OUTER = 6"
| "enum_value LEFT_EAR = 7"
| "enum_value RIGHT_EAR = 8"
| "enum_value MOUTH_LEFT = 9"
| "enum_value MOUTH_RIGHT = 10"
| "enum_value LEFT_SHOULDER = 11"
| "enum_value RIGHT_SHOULDER = 12"
| "enum_value LEFT_ELBOW = 13"
| "enum_value RIGHT_ELBOW = 14"
| "enum_value LEFT_WRIST = 15"
| "enum_value RIGHT_WRIST = 16"
| "enum_value LEFT_PINKY = 17"
| "enum_value RIGHT_PINKY = 18"
| "enum_value LEFT_INDEX = 19"
| "enum_value RIGHT_INDEX = 20"
| "enum_value LEFT_THUMB = 21"
| "enum_value RIGHT_THUMB = 22"
| "enum_value LEFT_HIP = 23"
| "enum_value RIGHT_HIP = 24"
| "enum_value LEFT_KNEE = 25"
| "enum_value RIGHT_KNEE = 26"
| "enum_value LEFT_ANKLE = 27"
| "enum_value RIGHT_ANKLE = 28"
| "enum_value LEFT_HEEL = 29"
| "enum_value RIGHT_HEEL = 30"
| "enum_value LEFT_FOOT_INDEX = 31"
| "enum_value RIGHT_FOOT_INDEX = 32"

text \<open>The number of members of the enumeration: the length of every landmark list the
  pose model produces.\<close>

definition NUM_LANDMARKS :: nat where
  "NUM_LANDMARKS = 33"

text \<open>
  \<^verbatim>\<open>SIMPLE_CONNECTIONS\<close> (the Bone Set) and \<^verbatim>\<open>KEY_LANDMARKS\<close> (the Joint Set). The two
  source files define the same two tables.
\<close>

definition SIMPLE_CONNECTIONS :: "(PoseLandmark \<times> PoseLandmark) list" where
  "SIMPLE_CONNECTIONS =
    [(NOSE, LEFT_SHOULDER),
     (NOSE, RIGHT_SHOULDER),
     (LEFT_SHOULDER, RIGHT_SHOULDER),
     (LEFT_SHOULDER, LEFT_HIP),
     (RIGHT_SHOULDER, RIGHT_HIP),
     (LEFT_HIP, RIGHT_HIP),
     (LEFT_SHOULDER, LEFT_ELBOW),
     (LEFT_ELBOW, LEFT_WRIST),
     (RIGHT_SHOULDER, RIGHT_ELBOW),
     (RIGHT_ELBOW, RIGHT_WRIST),
     (LEFT_HIP, LEFT_KNEE),
     (LEFT_KNEE, LEFT_ANKLE),
     (RIGHT_HIP, RIGHT_KNEE),
     (RIGHT_KNEE, RIGHT_ANKLE)]"

definition KEY_LANDMARKS :: "PoseLandmark list" where
  "KEY_LANDMARKS =
    [NOSE,
     LEFT_SHOULDER,
     RIGHT_SHOULDER,
     LEFT_ELBOW,
     RIGHT_ELBOW,
     LEFT_WRIST,
     RIGHT_WRIST,
     LEFT_HIP,
     RIGHT_HIP,
     LEFT_KNEE,
     RIGHT_KNEE,
     LEFT_ANKLE,
     RIGHT_ANKLE]"

text \<open>
  One landmark of the pose model: the fields \<^verbatim>\<open>x\<close>, \<^verbatim>\<open>y\<close>, \<^verbatim>\<open>z\<close> and
  \<^verbatim>\<open>visibility\<close>. The source holds them as floating-point numbers; here they are
  rationals and the products with the frame size are exact, so the rounding of a
  floating-point product is not part of the model (neither are NaN and the infinities).
\<close>

record landmark =
  lm_x :: rat
  lm_y :: rat
  lm_z :: rat
  lm_visibility :: rat

text \<open>One entry of the keypoint list of the backend: the dictionary with the keys
  \<^verbatim>\<open>'x'\<close>, \<^verbatim>\<open>'y'\<close>, \<^verbatim>\<open>'z'\<close> and \<^verbatim>\<open>'visibility'\<close>.\<close>

record keypoint =
  kp_x :: rat
  kp_y :: rat
  kp_z :: rat
  kp_visibility :: rat

text \<open>
  The image library (\<^verbatim>\<open>cv2\<close> and the array type of its frames) is external. A frame
  buffer's content has the type \<open>'f\<close>; the operations the source calls are the fields of
  this record: \<^verbatim>\<open>cv2.cvtColor(_, COLOR_BGR2RGB)\<close>, \<^verbatim>\<open>frame.shape\<close> (height and width),
  \<^verbatim>\<open>cv2.line\<close> and \<^verbatim>\<open>cv2.circle\<close> as functions from the content before the call to
  the content after it, and JPEG encoding followed by base64 encoding.
\<close>

record 'f cv2 =
  cv_cvtColor :: "'f \<Rightarrow> 'f"
  cv_shape :: "'f \<Rightarrow> nat \<times> nat"
  cv_line :: "'f \<Rightarrow> int \<times> int \<Rightarrow> int \<times> int \<Rightarrow> nat \<times> nat \<times> nat \<Rightarrow> int \<Rightarrow> 'f"
  cv_circle :: "'f \<Rightarrow> int \<times> int \<Rightarrow> int \<Rightarrow> nat \<times> nat \<times> nat \<Rightarrow> int \<Rightarrow> 'f"
  cv_imencode_b64 :: "'f \<Rightarrow> string"

text \<open>
  Frames are mutable arrays that the source passes by reference: the store is the list
  of all buffers allocated so far and a reference is an index into it. \<^verbatim>\<open>frame.copy()\<close>
  allocates a new buffer with the same content and returns its reference.
\<close>

type_synonym ref = nat

definition ndarray_copy :: "'f list \<Rightarrow> ref \<Rightarrow> ref \<times> 'f list" where
  "ndarray_copy s frame = (length s, s @ [s ! frame])"

datatype error =
    IndexError
  | RuntimeError_cannot_open string
  | RuntimeError_could_not_grab nat

section \<open>The skeleton renderer\<close>

text \<open>Python's \<^verbatim>\<open>int(v)\<close> on a number with a fractional part: truncation toward zero.\<close>

definition py_int :: "rat \<Rightarrow> int" where
  "py_int v = (if v < 0 then \<lceil>v\<rceil> else \<lfloor>v\<rfloor>)"

text \<open>The pixel coordinates of a landmark, the expression
  \<^verbatim>\<open>(int(p.x * w), int(p.y * h))\<close> that each drawing loop of the source repeats.\<close>

definition pixel :: "nat \<Rightarrow> nat \<Rightarrow> landmark \<Rightarrow> int \<times> int" where
  "pixel w h p = (py_int (lm_x p * of_nat w), py_int (lm_y p * of_nat h))"

text \<open>
  The loop over \<^verbatim>\<open>SIMPLE_CONNECTIONS\<close>. Indexing the landmark list beyond its end
  raises \<^verbatim>\<open>IndexError\<close>, which leaves the loop with the store as it is then.
  \<^verbatim>\<open>cv2.line\<close> writes into the buffer \<open>annotated\<close> refers to.
\<close>

fun draw_connections ::
  "'f cv2 \<Rightarrow> nat \<Rightarrow> nat \<Rightarrow> landmark list \<Rightarrow> ref \<Rightarrow> (PoseLandmark \<times> PoseLandmark) list
    \<Rightarrow> 'f list \<Rightarrow> (error + unit) \<times> 'f list" where
  "draw_connections cv w h landmark annotated [] s = (Inr (), s)"
| "draw_connections cv w h landmark annotated (connection # rest) s =
    (let start_idx = enum_value (fst connection);
         end_idx = enum_value (snd connection)
     in if length landmark \<le> start_idx then (Inl IndexError, s)
        else if length landmark \<le> end_idx then (Inl IndexError, s)
        else
          let start_point = landmark ! start_idx;
              end_point = landmark ! end_idx
          in if lm_visibility start_point > 1 / 2 \<and> lm_visibility end_point > 1 / 2
             then draw_connections cv w h landmark annotated rest
                    (s[annotated := cv_line cv (s ! annotated)
                         (pixel w h start_point) (pixel w h end_point) (0, 0, 255) 2])
             else draw_connections cv w h landmark annotated rest s)"

text \<open>The loop over \<^verbatim>\<open>KEY_LANDMARKS\<close>.\<close>

fun draw_landmarks ::
  "'f cv2 \<Rightarrow> nat \<Rightarrow> nat \<Rightarrow> landmark list \<Rightarrow> ref \<Rightarrow> PoseLandmark list
    \<Rightarrow> 'f list \<Rightarrow> (error + unit) \<times> 'f list" where
  "draw_landmarks cv w h landmark annotated [] s = (Inr (), s)"
| "draw_landmarks cv w h landmark annotated (landmark_idx # rest) s =
    (if length landmark \<le> enum_value landmark_idx then (Inl IndexError, s)
     else
       let lm = landmark ! enum_value landmark_idx
       in if lm_visibility lm > 1 / 2
          then draw_landmarks cv w h landmark annotated rest
                 (s[annotated := cv_circle cv (s ! annotated) (pixel w h lm) 3 (0, 255, 0) (- 1)])
          else draw_landmarks cv w h landmark annotated rest s)"

text \<open>The loop that appends one dictionary per landmark to \<^verbatim>\<open>keypoints\<close> (backend).\<close>

fun extract_keypoints :: "nat \<Rightarrow> nat \<Rightarrow> landmark list \<Rightarrow> keypoint list \<Rightarrow> keypoint list" where
  "extract_keypoints w h [] keypoints = keypoints"
| "extract_keypoints w h (lm # rest) keypoints =
    extract_keypoints w h rest
      (keypoints @ [\<lparr>kp_x = lm_x lm * of_nat w, kp_y = lm_y lm * of_nat h,
                     kp_z = lm_z lm * of_nat w, kp_visibility = lm_visibility lm\<rparr>])"

text \<open>The keypoint loop of \<^verbatim>\<open>main\<close> in the desktop tool: a triple per landmark.\<close>

fun main_keypoints :: "nat \<Rightarrow> nat \<Rightarrow> landmark list \<Rightarrow> (rat \<times> rat \<times> rat) list
    \<Rightarrow> (rat \<times> rat \<times> rat) list" where
  "main_keypoints w h [] keypoints = keypoints"
| "main_keypoints w h (lm # rest) keypoints =
    main_keypoints w h rest
      (keypoints @ [(lm_x lm * of_nat w, lm_y lm * of_nat h, lm_visibility lm)])"

text \<open>
  \<^verbatim>\<open>analyze_frame\<close> of the backend. \<open>pose\<close> is the pose model: from the converted image
  to \<^verbatim>\<open>result.pose_landmarks\<close>, which is \<open>None\<close> when no pose was found and the landmark
  list otherwise. The result is the triple the source returns (the reference of the
  annotated frame, the keypoints, the flag) or the exception raised, with the store.
\<close>

definition analyze_frame ::
  "'f cv2 \<Rightarrow> ('f \<Rightarrow> landmark list option) \<Rightarrow> ref \<Rightarrow> 'f list
    \<Rightarrow> (error + ref \<times> keypoint list \<times> bool) \<times> 'f list" where
  "analyze_frame cv pose frame s =
    (let image_rgb = cv_cvtColor cv (s ! frame);
         result = pose image_rgb;
         (annotated, s1) = ndarray_copy s frame;
         (h, w) = cv_shape cv (s ! frame)
     in case result of
          Some landmark \<Rightarrow>
            (case draw_connections cv w h landmark annotated SIMPLE_CONNECTIONS s1 of
               (Inl e, s2) \<Rightarrow> (Inl e, s2)
             | (Inr _, s2) \<Rightarrow>
                 (case draw_landmarks cv w h landmark annotated KEY_LANDMARKS s2 of
                    (Inl e, s3) \<Rightarrow> (Inl e, s3)
                  | (Inr _, s3) \<Rightarrow>
                      (Inr (annotated, extract_keypoints w h landmark [], True), s3)))
        | None \<Rightarrow> (Inr (annotated, [], False), s1))"

text \<open>\<^verbatim>\<open>analyze_and_annotate_frame\<close> of the desktop tool: the same two drawing loops, and
  a pair as result.\<close>

definition analyze_and_annotate_frame ::
  "'f cv2 \<Rightarrow> ('f \<Rightarrow> landmark list option) \<Rightarrow> ref \<Rightarrow> 'f list
    \<Rightarrow> (error + ref \<times> bool) \<times> 'f list" where
  "analyze_and_annotate_frame cv pose frame s =
    (let image_rgb = cv_cvtColor cv (s ! frame);
         result = pose image_rgb;
         (annotated, s1) = ndarray_copy s frame;
         (h, w) = cv_shape cv (s ! frame)
     in case result of
          Some landmark \<Rightarrow>
            (case draw_connections cv w h landmark annotated SIMPLE_CONNECTIONS s1 of
               (Inl e, s2) \<Rightarrow> (Inl e, s2)
             | (Inr _, s2) \<Rightarrow>
                 (case draw_landmarks cv w h landmark annotated KEY_LANDMARKS s2 of
                    (Inl e, s3) \<Rightarrow> (Inl e, s3)
                  | (Inr _, s3) \<Rightarrow> (Inr (annotated, True), s3)))
        | None \<Rightarrow> (Inr (annotated, False), s1))"

section \<open>Video source and HTTP endpoints\<close>

text \<open>
  A path of the file system holds nothing, a video (its decoded frames in order) or
  some other file. \<^verbatim>\<open>os.path.exists\<close> holds of both kinds of file; a capture opened on
  a file that is not a video is not open and every read of it fails.
\<close>

datatype 'f dir_entry = Video "'f list" | Other

definition video_frames :: "'f dir_entry \<Rightarrow> 'f list" where
  "video_frames f = (case f of Video frames \<Rightarrow> frames | Other \<Rightarrow> [])"

text \<open>
  \<^verbatim>\<open>cap.set(cv2.CAP_PROP_POS_FRAMES, i)\<close> followed by \<^verbatim>\<open>cap.read()\<close>: frame \<open>i\<close> of
  the stream, or end of stream (\<^verbatim>\<open>ret\<close> false) when \<open>i\<close> is beyond its end. Frame
  indices are natural numbers.
\<close>

definition cap_read :: "'f list \<Rightarrow> nat \<Rightarrow> 'f option" where
  "cap_read frames i = (if i < length frames then Some (frames ! i) else None)"

text \<open>\<^verbatim>\<open>read_frame\<close> of the desktop tool; each \<^verbatim>\<open>raise\<close> is an error value.\<close>

definition read_frame :: "(string \<Rightarrow> 'f dir_entry option) \<Rightarrow> string \<Rightarrow> nat \<Rightarrow> error + 'f" where
  "read_frame fs path frame_idx =
    (case fs path of
       Some (Video frames) \<Rightarrow>
         (case cap_read frames frame_idx of
            None \<Rightarrow> Inl (RuntimeError_could_not_grab frame_idx)
          | Some frame \<Rightarrow> Inr frame)
     | _ \<Rightarrow> Inl (RuntimeError_cannot_open path))"

text \<open>
  The JSON body of a request, as far as the endpoints read it: an object whose
  \<^verbatim>\<open>frame_index\<close>, when present, is an integer and whose \<^verbatim>\<open>frame_indices\<close>, when
  present, is a list of integers.
\<close>

record json_body =
  body_frame_index :: "nat option"
  body_frame_indices :: "nat list option"

text \<open>One entry of a batch result: frame index, \<^verbatim>\<open>has_pose\<close>, keypoints, image.\<close>

type_synonym analysis = "nat \<times> bool \<times> keypoint list \<times> string"

text \<open>What \<^verbatim>\<open>jsonify\<close> is given, and the body of the 500 response the web framework
  sends when the handler raises.\<close>

datatype payload =
    Error string
  | Frame nat string
  | Analysis analysis
  | Results "analysis list"
  | InternalServerError

type_synonym response = "nat \<times> payload"

text \<open>What a handler does to the video and the pose model, in order: a seek and read
  at a frame index, and an analysis of the frame read at an index.\<close>

datatype event = CapRead nat | PoseProcess nat

definition data_url :: "'f cv2 \<Rightarrow> 'f \<Rightarrow> string" where
  "data_url cv frame = ''data:image/jpeg;base64,'' @ cv_imencode_b64 cv frame"

text \<open>
  The handlers. \<open>upload_path filename\<close> stands for
  \<^verbatim>\<open>os.path.join(UPLOAD_FOLDER, secure_filename(filename))\<close>; a response carries its
  HTTP status (200 where the source gives none). A frame that \<^verbatim>\<open>cap.read()\<close> returns
  is a new buffer; the buffers of a request are its own, so each request starts from
  the empty store.
\<close>

definition get_frame ::
  "'f cv2 \<Rightarrow> (string \<Rightarrow> string) \<Rightarrow> (string \<Rightarrow> 'f dir_entry option) \<Rightarrow> string \<Rightarrow> nat
    \<Rightarrow> response \<times> event list" where
  "get_frame cv upload_path fs filename frame_index =
    (let filepath = upload_path filename
     in case fs filepath of
          None \<Rightarrow> ((404, Error ''Video not found''), [])
        | Some file \<Rightarrow>
            (case cap_read (video_frames file) frame_index of
               None \<Rightarrow> ((404, Error ''Frame not found''), [CapRead frame_index])
             | Some frame \<Rightarrow>
                 ((200, Frame frame_index (data_url cv frame)), [CapRead frame_index])))"

definition analyze_frame_endpoint ::
  "'f cv2 \<Rightarrow> ('f \<Rightarrow> landmark list option) \<Rightarrow> (string \<Rightarrow> string)
    \<Rightarrow> (string \<Rightarrow> 'f dir_entry option) \<Rightarrow> string \<Rightarrow> json_body \<Rightarrow> response \<times> event list" where
  "analyze_frame_endpoint cv pose upload_path fs filename data =
    (let frame_index = (case body_frame_index data of None \<Rightarrow> 0 | Some i \<Rightarrow> i);
         filepath = upload_path filename
     in case fs filepath of
          None \<Rightarrow> ((404, Error ''Video not found''), [])
        | Some file \<Rightarrow>
            (case cap_read (video_frames file) frame_index of
               None \<Rightarrow> ((404, Error ''Frame not found''), [CapRead frame_index])
             | Some content \<Rightarrow>
                 (case analyze_frame cv pose 0 [content] of
                    (Inl e, s) \<Rightarrow>
                      ((500, InternalServerError),
                       [CapRead frame_index, PoseProcess frame_index])
                  | (Inr (annotated_frame, keypoints, has_pose), s) \<Rightarrow>
                      ((200, Analysis (frame_index, has_pose, keypoints,
                                       data_url cv (s ! annotated_frame))),
                       [CapRead frame_index, PoseProcess frame_index]))))"

text \<open>The loop of \<^verbatim>\<open>analyze_batch_frames\<close> over the requested indices, with the result
  list, the store and the events so far.\<close>

fun batch_loop ::
  "'f cv2 \<Rightarrow> ('f \<Rightarrow> landmark list option) \<Rightarrow> 'f list \<Rightarrow> nat list \<Rightarrow> analysis list
    \<Rightarrow> 'f list \<Rightarrow> event list \<Rightarrow> (error + analysis list) \<times> event list" where
  "batch_loop cv pose video [] results s ev = (Inr results, ev)"
| "batch_loop cv pose video (frame_index # rest) results s ev =
    (case cap_read video frame_index of
       None \<Rightarrow> batch_loop cv pose video rest results s (ev @ [CapRead frame_index])
     | Some content \<Rightarrow>
         (case analyze_frame cv pose (length s) (s @ [content]) of
            (Inl e, s1) \<Rightarrow> (Inl e, ev @ [CapRead frame_index, PoseProcess frame_index])
          | (Inr (annotated_frame, keypoints, has_pose), s1) \<Rightarrow>
              batch_loop cv pose video rest
                (results @ [(frame_index, has_pose, keypoints,
                             data_url cv (s1 ! annotated_frame))])
                s1 (ev @ [CapRead frame_index, PoseProcess frame_index])))"

definition analyze_batch_frames ::
  "'f cv2 \<Rightarrow> ('f \<Rightarrow> landmark list option) \<Rightarrow> (string \<Rightarrow> string)
    \<Rightarrow> (string \<Rightarrow> 'f dir_entry option) \<Rightarrow> string \<Rightarrow> json_body \<Rightarrow> response \<times> event list" where
  "analyze_batch_frames cv pose upload_path fs filename data =
    (let frame_indices = (case body_frame_indices data of None \<Rightarrow> [] | Some l \<Rightarrow> l);
         filepath = upload_path filename
     in case fs filepath of
          None \<Rightarrow> ((404, Error ''Video not found''), [])
        | Some file \<Rightarrow>
            if length frame_indices > 50
            then ((400, Error ''Too many frames (max 50)''), [])
            else
              (case batch_loop cv pose (video_frames file) frame_indices [] [] [] of
                 (Inl e, ev) \<Rightarrow> ((500, InternalServerError), ev)
               | (Inr results, ev) \<Rightarrow> ((200, Results results), ev)))"

section \<open>The rendering, stated apart from the loops\<close>

text \<open>
  What the specification says is drawn: the segments of the Bone Set whose two
  endpoints both have a visibility above one half, and the markers of the Joint Set
  whose landmark has. The calls of the drawing functions are named, and the overlay is
  the segments in table order followed by the markers in table order.
\<close>

definition both_visible :: "landmark list \<Rightarrow> PoseLandmark \<times> PoseLandmark \<Rightarrow> bool" where
  "both_visible lms c =
    (lm_visibility (lms ! enum_value (fst c)) > 1 / 2 \<and>
     lm_visibility (lms ! enum_value (snd c)) > 1 / 2)"

definition marker_visible :: "landmark list \<Rightarrow> PoseLandmark \<Rightarrow> bool" where
  "marker_visible lms l = (lm_visibility (lms ! enum_value l) > 1 / 2)"

definition line_call :: "'f cv2 \<Rightarrow> nat \<Rightarrow> nat \<Rightarrow> landmark list \<Rightarrow> 'f \<Rightarrow> PoseLandmark \<times> PoseLandmark \<Rightarrow> 'f" where
  "line_call cv w h lms f c =
    cv_line cv f (pixel w h (lms ! enum_value (fst c))) (pixel w h (lms ! enum_value (snd c)))
      (0, 0, 255) 2"

definition circle_call :: "'f cv2 \<Rightarrow> nat \<Rightarrow> nat \<Rightarrow> landmark list \<Rightarrow> 'f \<Rightarrow> PoseLandmark \<Rightarrow> 'f" where
  "circle_call cv w h lms f l =
    cv_circle cv f (pixel w h (lms ! enum_value l)) 3 (0, 255, 0) (- 1)"

definition overlay :: "'f cv2 \<Rightarrow> nat \<Rightarrow> nat \<Rightarrow> landmark list \<Rightarrow> 'f \<Rightarrow> 'f" where
  "overlay cv w h lms f =
    foldl (circle_call cv w h lms)
      (foldl (line_call cv w h lms) f (filter (both_visible lms) SIMPLE_CONNECTIONS))
      (filter (marker_visible lms) KEY_LANDMARKS)"

text \<open>The keypoint of a landmark in a frame of width \<open>w\<close> and height \<open>h\<close>.\<close>

definition keypoint_of :: "nat \<Rightarrow> nat \<Rightarrow> landmark \<Rightarrow> keypoint" where
  "keypoint_of w h lm =
    \<lparr>kp_x = lm_x lm * of_nat w, kp_y = lm_y lm * of_nat h,
     kp_z = lm_z lm * of_nat w, kp_visibility = lm_visibility lm\<rparr>"

text \<open>The contract of the pose model: a landmark list, when there is one, has one entry
  per member of the enumeration.\<close>

definition fixed_length :: "('f \<Rightarrow> landmark list option) \<Rightarrow> bool" where
  "fixed_length pose = (\<forall>f lms. pose f = Some lms \<longrightarrow> length lms = NUM_LANDMARKS)"

text \<open>The annotated content, the keypoints and the result entry of a frame, as functions
  of its content alone.\<close>

definition rendered :: "'f cv2 \<Rightarrow> ('f \<Rightarrow> landmark list option) \<Rightarrow> 'f \<Rightarrow> 'f" where
  "rendered cv pose content =
    (case pose (cv_cvtColor cv content) of
       None \<Rightarrow> content
     | Some lms \<Rightarrow>
         overlay cv (snd (cv_shape cv content)) (fst (cv_shape cv content)) lms content)"

definition keypoints_of :: "'f cv2 \<Rightarrow> ('f \<Rightarrow> landmark list option) \<Rightarrow> 'f \<Rightarrow> keypoint list" where
  "keypoints_of cv pose content =
    (case pose (cv_cvtColor cv content) of
       None \<Rightarrow> []
     | Some lms \<Rightarrow>
         map (keypoint_of (snd (cv_shape cv content)) (fst (cv_shape cv content))) lms)"

definition analysis_of :: "'f cv2 \<Rightarrow> ('f \<Rightarrow> landmark list option) \<Rightarrow> nat \<Rightarrow> 'f \<Rightarrow> analysis" where
  "analysis_of cv pose i content =
    (i, pose (cv_cvtColor cv content) \<noteq> None, keypoints_of cv pose content,
     data_url cv (rendered cv pose content))"

text \<open>The events of one iteration of the batch loop.\<close>

definition events_of :: "'f list \<Rightarrow> nat \<Rightarrow> event list" where
  "events_of video i =
    (if i < length video then [CapRead i, PoseProcess i] else [CapRead i])"

section \<open>A recording image library and fixed inputs\<close>

text \<open>
  An instance of the image library that records every drawing call: a canvas is its
  shape and the calls made on it so far. With it the renderer runs on concrete inputs.
\<close>

datatype draw_call =
    LineCall "int \<times> int" "int \<times> int" "nat \<times> nat \<times> nat" int
  | CircleCall "int \<times> int" int "nat \<times> nat \<times> nat" int

type_synonym canvas = "(nat \<times> nat) \<times> draw_call list"

definition canvas_cv :: "canvas cv2" where
  "canvas_cv =
    \<lparr>cv_cvtColor = (\<lambda>f. f),
     cv_shape = fst,
     cv_line = (\<lambda>f p q c t. (fst f, snd f @ [LineCall p q c t])),
     cv_circle = (\<lambda>f p r c t. (fst f, snd f @ [CircleCall p r c t])),
     cv_imencode_b64 = (\<lambda>f. ''jpeg'')\<rparr>"

text \<open>A landmark at the normalized position (0.5, 0.5) with a given visibility, a
  pose model that reports 33 of them, one that finds no pose, and an empty 3 by 3
  canvas.\<close>

definition centre :: "rat \<Rightarrow> landmark" where
  "centre v = \<lparr>lm_x = 1 / 2, lm_y = 1 / 2, lm_z = 0, lm_visibility = v\<rparr>"

definition still_pose :: "rat \<Rightarrow> canvas \<Rightarrow> landmark list option" where
  "still_pose v f = Some (replicate 33 (centre v))"

definition no_pose :: "canvas \<Rightarrow> landmark list option" where
  "no_pose f = None"

definition blank :: canvas where
  "blank = ((3, 3), [])"

text \<open>An upload folder that is empty and one that holds a video of two frames, with the
  path function of a file name that needs no sanitising, and two request bodies.\<close>

definition uploads_path :: "string \<Rightarrow> string" where
  "uploads_path filename = ''uploads/'' @ filename"

definition no_files :: "string \<Rightarrow> canvas dir_entry option" where
  "no_files path = None"

definition one_video :: "string \<Rightarrow> canvas dir_entry option" where
  "one_video path =
    (if path = ''uploads/clip.mp4'' then Some (Video [blank, blank]) else None)"

definition batch_body :: "nat list \<Rightarrow> json_body" where
  "batch_body l = \<lparr>body_frame_index = None, body_frame_indices = Some l\<rparr>"

definition empty_body :: json_body where
  "empty_body = \<lparr>body_frame_index = None, body_frame_indices = None\<rparr>"

section \<open>The loops as folds\<close>

lemma enum_value_bound: "enum_value l < NUM_LANDMARKS"
  by (cases l) (simp_all add: NUM_LANDMARKS_def)

lemma connections_in_range:
  "NUM_LANDMARKS \<le> n \<Longrightarrow>
   list_all (\<lambda>c. enum_value (fst c) < n \<and> enum_value (snd c) < n) cs"
  using enum_value_bound by (induction cs) (auto intro: less_le_trans)

lemma landmarks_in_range:
  "NUM_LANDMARKS \<le> n \<Longrightarrow> list_all (\<lambda>l. enum_value l < n) ls"
  using enum_value_bound by (induction ls) (auto intro: less_le_trans)

lemma draw_connections_run:
  assumes "list_all (\<lambda>c. enum_value (fst c) < length lms \<and> enum_value (snd c) < length lms) cs"
    and "ann < length s"
  shows "draw_connections cv w h lms ann cs s =
    (Inr (), s[ann := foldl (line_call cv w h lms) (s ! ann) (filter (both_visible lms) cs)])"
  using assms
proof (induction cs arbitrary: s)
  case Nil
  then show ?case by simp
next
  case (Cons c cs)
  then show ?case
    by (simp add: Let_def both_visible_def line_call_def)
qed

lemma draw_landmarks_run:
  assumes "list_all (\<lambda>l. enum_value l < length lms) ls"
    and "ann < length s"
  shows "draw_landmarks cv w h lms ann ls s =
    (Inr (), s[ann := foldl (circle_call cv w h lms) (s ! ann) (filter (marker_visible lms) ls)])"
  using assms
proof (induction ls arbitrary: s)
  case Nil
  then show ?case by simp
next
  case (Cons l ls)
  then show ?case
    by (simp add: Let_def marker_visible_def circle_call_def)
qed

lemma draw_connections_no_error:
  "list_all (\<lambda>c. enum_value (fst c) < length lms \<and> enum_value (snd c) < length lms) cs \<Longrightarrow>
   fst (draw_connections cv w h lms ann cs s) = Inr ()"
  by (induction cs arbitrary: s) (simp_all add: Let_def)

lemma draw_landmarks_no_error:
  "list_all (\<lambda>l. enum_value l < length lms) ls \<Longrightarrow>
   fst (draw_landmarks cv w h lms ann ls s) = Inr ()"
  by (induction ls arbitrary: s) (simp_all add: Let_def)

lemma draw_connections_frame:
  "draw_connections cv w h lms ann cs s = (r, s') \<Longrightarrow>
   length s' = length s \<and> (\<forall>i. i \<noteq> ann \<longrightarrow> s' ! i = s ! i)"
proof (induction cs arbitrary: s)
  case Nil
  then show ?case by simp
next
  case (Cons c cs)
  then show ?case
    by (fastforce simp: Let_def split: if_splits)
qed

lemma draw_landmarks_frame:
  "draw_landmarks cv w h lms ann ls s = (r, s') \<Longrightarrow>
   length s' = length s \<and> (\<forall>i. i \<noteq> ann \<longrightarrow> s' ! i = s ! i)"
proof (induction ls arbitrary: s)
  case Nil
  then show ?case by simp
next
  case (Cons l ls)
  then show ?case
    by (fastforce simp: Let_def split: if_splits)
qed

lemma extract_keypoints_map:
  "extract_keypoints w h lms acc = acc @ map (keypoint_of w h) lms"
  by (induction lms arbitrary: acc) (simp_all add: keypoint_of_def)

lemma main_keypoints_map:
  "main_keypoints w h lms acc =
     acc @ map (\<lambda>lm. (lm_x lm * of_nat w, lm_y lm * of_nat h, lm_visibility lm)) lms"
  by (induction lms arbitrary: acc) simp_all

section \<open>The renderer on a landmark list and on none\<close>

lemma analyze_frame_found:
  assumes "pose (cv_cvtColor cv (s ! frame)) = Some lms"
    and "NUM_LANDMARKS \<le> length lms"
    and "cv_shape cv (s ! frame) = (h, w)"
  shows "analyze_frame cv pose frame s =
    (Inr (length s, map (keypoint_of w h) lms, True), s @ [overlay cv w h lms (s ! frame)])"
proof -
  let ?s1 = "s @ [s ! frame]"
  have c: "draw_connections cv w h lms (length s) SIMPLE_CONNECTIONS ?s1 =
      (Inr (), s @ [foldl (line_call cv w h lms) (s ! frame)
                      (filter (both_visible lms) SIMPLE_CONNECTIONS)])"
    using draw_connections_run [OF connections_in_range [OF assms(2)], of "length s" ?s1]
    by simp
  have l: "draw_landmarks cv w h lms (length s) KEY_LANDMARKS (s @ [v]) =
      (Inr (), s @ [foldl (circle_call cv w h lms) v (filter (marker_visible lms) KEY_LANDMARKS)])"
    for v
    using draw_landmarks_run [OF landmarks_in_range [OF assms(2)], of "length s" "s @ [v]"]
    by simp
  show ?thesis
    unfolding analyze_frame_def ndarray_copy_def
    by (simp add: assms(1,3) c l Let_def overlay_def extract_keypoints_map)
qed

lemma analyze_frame_none:
  assumes "pose (cv_cvtColor cv (s ! frame)) = None"
  shows "analyze_frame cv pose frame s = (Inr (length s, [], False), s @ [s ! frame])"
  unfolding analyze_frame_def ndarray_copy_def
  by (simp add: assms Let_def split: prod.splits)

lemma analyze_and_annotate_frame_found:
  assumes "pose (cv_cvtColor cv (s ! frame)) = Some lms"
    and "NUM_LANDMARKS \<le> length lms"
    and "cv_shape cv (s ! frame) = (h, w)"
  shows "analyze_and_annotate_frame cv pose frame s =
    (Inr (length s, True), s @ [overlay cv w h lms (s ! frame)])"
proof -
  let ?s1 = "s @ [s ! frame]"
  have c: "draw_connections cv w h lms (length s) SIMPLE_CONNECTIONS ?s1 =
      (Inr (), s @ [foldl (line_call cv w h lms) (s ! frame)
                      (filter (both_visible lms) SIMPLE_CONNECTIONS)])"
    using draw_connections_run [OF connections_in_range [OF assms(2)], of "length s" ?s1]
    by simp
  have l: "draw_landmarks cv w h lms (length s) KEY_LANDMARKS (s @ [v]) =
      (Inr (), s @ [foldl (circle_call cv w h lms) v (filter (marker_visible lms) KEY_LANDMARKS)])"
    for v
    using draw_landmarks_run [OF landmarks_in_range [OF assms(2)], of "length s" "s @ [v]"]
    by simp
  show ?thesis
    unfolding analyze_and_annotate_frame_def ndarray_copy_def
    by (simp add: assms(1,3) c l Let_def overlay_def)
qed

lemma analyze_and_annotate_frame_none:
  assumes "pose (cv_cvtColor cv (s ! frame)) = None"
  shows "analyze_and_annotate_frame cv pose frame s =
    (Inr (length s, False), s @ [s ! frame])"
  unfolding analyze_and_annotate_frame_def ndarray_copy_def
  by (simp add: assms Let_def split: prod.splits)

lemma analyze_frame_total:
  assumes "fixed_length pose"
  shows "analyze_frame cv pose frame s =
    (Inr (length s, keypoints_of cv pose (s ! frame), pose (cv_cvtColor cv (s ! frame)) \<noteq> None),
     s @ [rendered cv pose (s ! frame)])"
proof (cases "pose (cv_cvtColor cv (s ! frame))")
  case None
  from analyze_frame_none [where pose = pose and cv = cv and s = s and frame = frame, OF None]
  show ?thesis by (simp add: None keypoints_of_def rendered_def)
next
  case (Some lms)
  with assms have "NUM_LANDMARKS \<le> length lms" by (simp add: fixed_length_def)
  moreover have "cv_shape cv (s ! frame) = (fst (cv_shape cv (s ! frame)), snd (cv_shape cv (s ! frame)))"
    by simp
  ultimately show ?thesis
    using analyze_frame_found [where pose = pose and cv = cv and s = s and frame = frame, OF Some]
    by (simp add: Some keypoints_of_def rendered_def)
qed

lemma analyze_and_annotate_frame_total:
  assumes "fixed_length pose"
  shows "analyze_and_annotate_frame cv pose frame s =
    (Inr (length s, pose (cv_cvtColor cv (s ! frame)) \<noteq> None),
     s @ [rendered cv pose (s ! frame)])"
proof (cases "pose (cv_cvtColor cv (s ! frame))")
  case None
  from analyze_and_annotate_frame_none
    [where pose = pose and cv = cv and s = s and frame = frame, OF None]
  show ?thesis by (simp add: None rendered_def)
next
  case (Some lms)
  with assms have "NUM_LANDMARKS \<le> length lms" by (simp add: fixed_length_def)
  moreover have "cv_shape cv (s ! frame) = (fst (cv_shape cv (s ! frame)), snd (cv_shape cv (s ! frame)))"
    by simp
  ultimately show ?thesis
    using analyze_and_annotate_frame_found
      [where pose = pose and cv = cv and s = s and frame = frame, OF Some]
    by (simp add: Some rendered_def)
qed

lemma invisible_segments:
  assumes "list_all (\<lambda>lm. lm_visibility lm \<le> 1 / 2) lms" and "NUM_LANDMARKS \<le> length lms"
  shows "filter (both_visible lms) cs = []"
proof -
  have "\<not> both_visible lms c" for c
  proof -
    have "enum_value (fst c) < length lms"
      using enum_value_bound [of "fst c"] assms(2) by simp
    then have "lm_visibility (lms ! enum_value (fst c)) \<le> 1 / 2"
      using assms(1) by (simp add: list_all_length)
    then show ?thesis by (simp add: both_visible_def)
  qed
  then show ?thesis by simp
qed

lemma invisible_markers:
  assumes "list_all (\<lambda>lm. lm_visibility lm \<le> 1 / 2) lms" and "NUM_LANDMARKS \<le> length lms"
  shows "filter (marker_visible lms) ls = []"
proof -
  have "\<not> marker_visible lms l" for l
  proof -
    have "enum_value l < length lms"
      using enum_value_bound [of l] assms(2) by simp
    then have "lm_visibility (lms ! enum_value l) \<le> 1 / 2"
      using assms(1) by (simp add: list_all_length)
    then show ?thesis by (simp add: marker_visible_def)
  qed
  then show ?thesis by simp
qed

lemma overlay_invisible:
  assumes "list_all (\<lambda>lm. lm_visibility lm \<le> 1 / 2) lms" and "NUM_LANDMARKS \<le> length lms"
  shows "overlay cv w h lms f = f"
  unfolding overlay_def
  by (simp add: invisible_segments [OF assms] invisible_markers [OF assms])

section \<open>Facts about the fixed inputs\<close>

lemma floor_half: "\<lfloor>(1 / 2 :: rat) * of_nat n\<rfloor> = int (n div 2)"
proof -
  have "(1 / 2 :: rat) * of_nat n = of_int (int n) / of_int 2" by simp
  then have "\<lfloor>(1 / 2 :: rat) * of_nat n\<rfloor> = int n div 2"
    by (simp only: floor_divide_of_int_eq)
  then show ?thesis by (simp add: zdiv_int)
qed

lemma pixel_centre: "pixel 3 3 (centre v) = (1, 1)"
proof -
  have f: "\<lfloor>3 / 2 :: rat\<rfloor> = 1" by (rule floor_unique) simp_all
  show ?thesis by (simp add: pixel_def py_int_def centre_def f)
qed

lemma nth_still: "i < 33 \<Longrightarrow> replicate 33 (centre v) ! i = centre v"
  by simp

lemma enum_value_33: "enum_value l < 33"
  using enum_value_bound [of l] by (simp add: NUM_LANDMARKS_def)

lemma fixed_length_still: "fixed_length (still_pose v)"
  by (simp add: fixed_length_def still_pose_def NUM_LANDMARKS_def)

lemma rep14: "replicate 14 x = [x, x, x, x, x, x, x, x, x, x, x, x, x, x]"
  by (simp add: numeral_eq_Suc)

lemma rep13: "replicate 13 x = [x, x, x, x, x, x, x, x, x, x, x, x, x]"
  by (simp add: numeral_eq_Suc)

section \<open>The store after rendering\<close>

lemma store_prefix:
  assumes "length t = Suc (length s)"
    and "\<forall>i. i \<noteq> length s \<longrightarrow> t ! i = (s @ [x]) ! i"
  shows "take (length s) t = s"
proof (rule nth_equalityI)
  show "length (take (length s) t) = length s" using assms(1) by simp
next
  fix i assume "i < length (take (length s) t)"
  then have i: "i < length s" by simp
  then have "t ! i = (s @ [x]) ! i" using assms(2) by simp
  with i show "take (length s) t ! i = s ! i" by (simp add: nth_append)
qed

lemma drawing_store:
  assumes "draw_connections cv w h lms (length s) SIMPLE_CONNECTIONS (s @ [x]) = (r2, s2)"
    and "draw_landmarks cv w h lms (length s) KEY_LANDMARKS s2 = (r3, s3)"
  shows "length s2 = Suc (length s) \<and> take (length s) s2 = s \<and>
         length s3 = Suc (length s) \<and> take (length s) s3 = s"
proof -
  from draw_connections_frame [OF assms(1)]
  have c: "length s2 = Suc (length s)" "\<forall>i. i \<noteq> length s \<longrightarrow> s2 ! i = (s @ [x]) ! i"
    by simp_all
  from draw_landmarks_frame [OF assms(2)] c
  have l: "length s3 = Suc (length s)" "\<forall>i. i \<noteq> length s \<longrightarrow> s3 ! i = (s @ [x]) ! i"
    by simp_all
  from store_prefix [OF c] store_prefix [OF l] c(1) l(1) show ?thesis by simp
qed

lemma analyze_frame_store:
  "length (snd (analyze_frame cv pose frame s)) = Suc (length s) \<and>
   take (length s) (snd (analyze_frame cv pose frame s)) = s \<and>
   (\<forall>r. fst (analyze_frame cv pose frame s) = Inr r \<longrightarrow> fst r = length s)"
proof (cases "pose (cv_cvtColor cv (s ! frame))")
  case None
  from analyze_frame_none [where pose = pose and cv = cv and s = s and frame = frame, OF None]
  show ?thesis by simp
next
  case (Some lms)
  obtain h w where sh: "cv_shape cv (s ! frame) = (h, w)"
    by (cases "cv_shape cv (s ! frame)")
  obtain r2 s2 where dc:
    "draw_connections cv w h lms (length s) SIMPLE_CONNECTIONS (s @ [s ! frame]) = (r2, s2)"
    by (cases "draw_connections cv w h lms (length s) SIMPLE_CONNECTIONS (s @ [s ! frame])")
  obtain r3 s3 where dl: "draw_landmarks cv w h lms (length s) KEY_LANDMARKS s2 = (r3, s3)"
    by (cases "draw_landmarks cv w h lms (length s) KEY_LANDMARKS s2")
  note st = drawing_store [OF dc dl]
  show ?thesis
  proof (cases r2)
    case (Inl e)
    then have "analyze_frame cv pose frame s = (Inl e, s2)"
      by (simp add: analyze_frame_def ndarray_copy_def Let_def Some sh dc)
    with st show ?thesis by simp
  next
    case (Inr u)
    show ?thesis
    proof (cases r3)
      case (Inl e)
      with Inr have "analyze_frame cv pose frame s = (Inl e, s3)"
        by (simp add: analyze_frame_def ndarray_copy_def Let_def Some sh dc dl)
      with st show ?thesis by simp
    next
      case r3: (Inr u')
      with Inr have "analyze_frame cv pose frame s =
          (Inr (length s, extract_keypoints w h lms [], True), s3)"
        by (simp add: analyze_frame_def ndarray_copy_def Let_def Some sh dc dl)
      with st show ?thesis by simp
    qed
  qed
qed

lemma analyze_and_annotate_frame_store:
  "length (snd (analyze_and_annotate_frame cv pose frame s)) = Suc (length s) \<and>
   take (length s) (snd (analyze_and_annotate_frame cv pose frame s)) = s \<and>
   (\<forall>r. fst (analyze_and_annotate_frame cv pose frame s) = Inr r \<longrightarrow> fst r = length s)"
proof (cases "pose (cv_cvtColor cv (s ! frame))")
  case None
  from analyze_and_annotate_frame_none
    [where pose = pose and cv = cv and s = s and frame = frame, OF None]
  show ?thesis by simp
next
  case (Some lms)
  obtain h w where sh: "cv_shape cv (s ! frame) = (h, w)"
    by (cases "cv_shape cv (s ! frame)")
  obtain r2 s2 where dc:
    "draw_connections cv w h lms (length s) SIMPLE_CONNECTIONS (s @ [s ! frame]) = (r2, s2)"
    by (cases "draw_connections cv w h lms (length s) SIMPLE_CONNECTIONS (s @ [s ! frame])")
  obtain r3 s3 where dl: "draw_landmarks cv w h lms (length s) KEY_LANDMARKS s2 = (r3, s3)"
    by (cases "draw_landmarks cv w h lms (length s) KEY_LANDMARKS s2")
  note st = drawing_store [OF dc dl]
  show ?thesis
  proof (cases r2)
    case (Inl e)
    then have "analyze_and_annotate_frame cv pose frame s = (Inl e, s2)"
      by (simp add: analyze_and_annotate_frame_def ndarray_copy_def Let_def Some sh dc)
    with st show ?thesis by simp
  next
    case (Inr u)
    show ?thesis
    proof (cases r3)
      case (Inl e)
      with Inr have "analyze_and_annotate_frame cv pose frame s = (Inl e, s3)"
        by (simp add: analyze_and_annotate_frame_def ndarray_copy_def Let_def Some sh dc dl)
      with st show ?thesis by simp
    next
      case r3: (Inr u')
      with Inr have "analyze_and_annotate_frame cv pose frame s = (Inr (length s, True), s3)"
        by (simp add: analyze_and_annotate_frame_def ndarray_copy_def Let_def Some sh dc dl)
      with st show ?thesis by simp
    qed
  qed
qed

lemma prefix_nth: "take n t = s \<Longrightarrow> i < length s \<Longrightarrow> t ! i = s ! i"
  by (metis nth_take length_take min_less_iff_conj)

section \<open>The batch loop as a map over the readable indices\<close>

lemma batch_loop_run:
  assumes "fixed_length pose"
  shows "batch_loop cv pose video idxs results s ev =
    (Inr (results @ map (\<lambda>i. analysis_of cv pose i (video ! i))
                      (filter (\<lambda>i. i < length video) idxs)),
     ev @ concat (map (events_of video) idxs))"
proof (induction idxs arbitrary: results s ev)
  case Nil
  then show ?case by simp
next
  case (Cons i idxs)
  show ?case
  proof (cases "i < length video")
    case True
    have a: "analyze_frame cv pose (length s) (s @ [video ! i]) =
        (Inr (Suc (length s), keypoints_of cv pose (video ! i),
              pose (cv_cvtColor cv (video ! i)) \<noteq> None),
         s @ [video ! i, rendered cv pose (video ! i)])"
      using analyze_frame_total [OF assms, of cv "length s" "s @ [video ! i]"] by simp
    have n: "(s @ [video ! i, rendered cv pose (video ! i)]) ! Suc (length s) =
        rendered cv pose (video ! i)"
      by (simp add: nth_append)
    show ?thesis
      using True
      by (simp add: cap_read_def a n Cons.IH analysis_of_def events_of_def)
  next
    case False
    then show ?thesis
      by (simp add: cap_read_def Cons.IH events_of_def)
  qed
qed

section \<open>Claims\<close>

text \<open>
  C1 (as the specification states it): pixel coordinates are obtained by rounding to
  nearest, so a landmark at (0.5, 0.5) lands on (round(0.5 W), round(0.5 H)). This
  fails: in a 3 by 3 frame the source computes \<^verbatim>\<open>int(1.5) = 1\<close> for both coordinates,
  and rounding 1.5 to nearest gives 2.
\<close>

theorem pixel_round_counterexample:
  "pixel 3 3 (centre 1) = (1, 1) \<and>
   (round (lm_x (centre 1) * of_nat 3), round (lm_y (centre 1) * of_nat 3)) = (2, 2)"
proof -
  have f: "\<lfloor>3 / 2 :: rat\<rfloor> = 1" by (rule floor_unique) simp_all
  have r: "round (3 / 2 :: rat) = 2" unfolding round_def by (rule floor_unique) simp_all
  show ?thesis by (simp add: pixel_def py_int_def centre_def f r)
qed

text \<open>
  C1 (amended): the renderer converts with \<^verbatim>\<open>int\<close>, which truncates toward zero: the
  pixel coordinate is the floor of the product for a non-negative normalized coordinate
  and the ceiling for a negative one; a landmark at (0.5, 0.5) lands on
  (W div 2, H div 2); and the marker of a visible landmark is drawn at these
  truncated coordinates.
\<close>

theorem pixel_truncates:
  "pixel w h p =
     (if 0 \<le> lm_x p then \<lfloor>lm_x p * of_nat w\<rfloor> else \<lceil>lm_x p * of_nat w\<rceil>,
      if 0 \<le> lm_y p then \<lfloor>lm_y p * of_nat h\<rfloor> else \<lceil>lm_y p * of_nat h\<rceil>) \<and>
   (lm_x p = 1 / 2 \<and> lm_y p = 1 / 2 \<longrightarrow> pixel w h p = (int (w div 2), int (h div 2))) \<and>
   (enum_value l < length lms \<and> lm_visibility (lms ! enum_value l) > 1 / 2 \<longrightarrow>
      draw_landmarks cv w h lms ann [l] s =
        (Inr (), s[ann := cv_circle cv (s ! ann)
                    (py_int (lm_x (lms ! enum_value l) * of_nat w),
                     py_int (lm_y (lms ! enum_value l) * of_nat h)) 3 (0, 255, 0) (- 1)]))"
proof (intro conjI impI)
  have t: "py_int (a * of_nat n) = (if 0 \<le> a then \<lfloor>a * of_nat n\<rfloor> else \<lceil>a * of_nat n\<rceil>)"
    for a :: rat and n :: nat
  proof (cases "0 \<le> a")
    case True
    then have "\<not> a * of_nat n < 0" by (simp add: not_less)
    with True show ?thesis by (simp add: py_int_def)
  next
    case False
    show ?thesis
    proof (cases "n = 0")
      case True
      then show ?thesis by (simp add: py_int_def)
    next
      case n: False
      with False have "a * of_nat n < 0" by (simp add: mult_less_0_iff)
      with False show ?thesis by (simp add: py_int_def)
    qed
  qed
  show "pixel w h p =
     (if 0 \<le> lm_x p then \<lfloor>lm_x p * of_nat w\<rfloor> else \<lceil>lm_x p * of_nat w\<rceil>,
      if 0 \<le> lm_y p then \<lfloor>lm_y p * of_nat h\<rfloor> else \<lceil>lm_y p * of_nat h\<rceil>)"
    unfolding pixel_def by (simp only: t)
  show "pixel w h p = (int (w div 2), int (h div 2))" if "lm_x p = 1 / 2 \<and> lm_y p = 1 / 2"
    unfolding pixel_def using that by (simp only: py_int_def floor_half) simp
  show "draw_landmarks cv w h lms ann [l] s =
        (Inr (), s[ann := cv_circle cv (s ! ann)
                    (py_int (lm_x (lms ! enum_value l) * of_nat w),
                     py_int (lm_y (lms ! enum_value l) * of_nat h)) 3 (0, 255, 0) (- 1)])"
    if "enum_value l < length lms \<and> lm_visibility (lms ! enum_value l) > 1 / 2"
    using that by (simp add: pixel_def Let_def)
qed

theorem pixel_truncates_witness:
  "pixel 3 3 (centre 1) = (1, 1) \<and>
   draw_landmarks canvas_cv 3 3 [centre 1] 0 [NOSE] [blank] =
     (Inr (), [((3, 3), [CircleCall (1, 1) 3 (0, 255, 0) (- 1)])])"
proof -
  have f: "\<lfloor>3 / 2 :: rat\<rfloor> = 1" by (rule floor_unique) simp_all
  show ?thesis
    using pixel_truncates [of 3 3 "centre 1" NOSE "[centre 1]" canvas_cv 0 "[blank]"]
    by (simp add: centre_def canvas_cv_def blank_def py_int_def f)
qed

text \<open>
  C2: when a pose was found, the keypoint list has one entry per landmark of the full
  enumeration, in order: x times the width, y times the height, z times the width and
  the visibility as it is, whatever the visibilities are. The desktop tool's list has
  x times the width, y times the height and the visibility.
\<close>

theorem keypoints_cover_every_landmark:
  assumes "pose (cv_cvtColor cv (s ! frame)) = Some lms"
    and "length lms = NUM_LANDMARKS"
    and "cv_shape cv (s ! frame) = (h, w)"
  shows "fst (analyze_frame cv pose frame s) =
      Inr (length s,
           map (\<lambda>lm. \<lparr>kp_x = lm_x lm * of_nat w, kp_y = lm_y lm * of_nat h,
                       kp_z = lm_z lm * of_nat w, kp_visibility = lm_visibility lm\<rparr>) lms,
           True) \<and>
    extract_keypoints w h lms [] =
      map (\<lambda>lm. \<lparr>kp_x = lm_x lm * of_nat w, kp_y = lm_y lm * of_nat h,
                  kp_z = lm_z lm * of_nat w, kp_visibility = lm_visibility lm\<rparr>) lms \<and>
    length (extract_keypoints w h lms []) = NUM_LANDMARKS \<and>
    main_keypoints w h lms [] =
      map (\<lambda>lm. (lm_x lm * of_nat w, lm_y lm * of_nat h, lm_visibility lm)) lms \<and>
    length (main_keypoints w h lms []) = NUM_LANDMARKS"
proof -
  have k: "keypoint_of w h =
      (\<lambda>lm. \<lparr>kp_x = lm_x lm * of_nat w, kp_y = lm_y lm * of_nat h,
              kp_z = lm_z lm * of_nat w, kp_visibility = lm_visibility lm\<rparr>)"
    by (rule ext) (simp add: keypoint_of_def)
  have "NUM_LANDMARKS \<le> length lms" using assms(2) by simp
  from analyze_frame_found [where pose = pose and cv = cv and s = s and frame = frame, OF assms(1) this assms(3)]
  have "fst (analyze_frame cv pose frame s) = Inr (length s, map (keypoint_of w h) lms, True)"
    by simp
  moreover have "extract_keypoints w h lms [] = map (keypoint_of w h) lms"
    by (simp add: extract_keypoints_map)
  ultimately show ?thesis
    by (simp add: k main_keypoints_map assms(2))
qed

theorem keypoints_cover_every_landmark_witness:
  "fst (analyze_frame canvas_cv (still_pose 0) 0 [blank]) =
     Inr (1, replicate 33 \<lparr>kp_x = 3 / 2, kp_y = 3 / 2, kp_z = 0, kp_visibility = 0\<rparr>, True) \<and>
   length (extract_keypoints 3 3 (replicate 33 (centre 0)) []) = 33"
  using keypoints_cover_every_landmark
    [of "still_pose 0" canvas_cv "[blank]" 0 "replicate 33 (centre 0)" 3 3]
  by (simp add: still_pose_def canvas_cv_def blank_def NUM_LANDMARKS_def centre_def)

text \<open>
  C3: the drawing calls made on the annotated copy are exactly the segments of the Bone
  Set whose two endpoint visibilities are both above 0.5, in table order, followed by
  the markers of the Joint Set whose visibility is above 0.5; everything else is
  skipped without an error. When every visibility is 0 the annotated buffer has the
  content of the input frame, and the keypoint list still has one entry per landmark,
  each with visibility 0.
\<close>

theorem drawing_threshold:
  assumes "pose (cv_cvtColor cv (s ! frame)) = Some lms"
    and "length lms = NUM_LANDMARKS"
    and "cv_shape cv (s ! frame) = (h, w)"
  shows "analyze_frame cv pose frame s =
      (Inr (length s, extract_keypoints w h lms [], True),
       s @ [foldl (circle_call cv w h lms)
              (foldl (line_call cv w h lms) (s ! frame)
                 (filter (both_visible lms) SIMPLE_CONNECTIONS))
              (filter (marker_visible lms) KEY_LANDMARKS)]) \<and>
    analyze_and_annotate_frame cv pose frame s =
      (Inr (length s, True),
       s @ [foldl (circle_call cv w h lms)
              (foldl (line_call cv w h lms) (s ! frame)
                 (filter (both_visible lms) SIMPLE_CONNECTIONS))
              (filter (marker_visible lms) KEY_LANDMARKS)]) \<and>
    (list_all (\<lambda>lm. lm_visibility lm = 0) lms \<longrightarrow>
       snd (analyze_frame cv pose frame s) ! length s = s ! frame \<and>
       snd (analyze_and_annotate_frame cv pose frame s) ! length s = s ! frame \<and>
       length (extract_keypoints w h lms []) = NUM_LANDMARKS \<and>
       list_all (\<lambda>k. kp_visibility k = 0) (extract_keypoints w h lms []))"
proof -
  have n: "NUM_LANDMARKS \<le> length lms" using assms(2) by simp
  note a = analyze_frame_found [where pose = pose and cv = cv and s = s and frame = frame, OF assms(1) n assms(3)]
  note b = analyze_and_annotate_frame_found [where pose = pose and cv = cv and s = s and frame = frame, OF assms(1) n assms(3)]
  have z: "overlay cv w h lms (s ! frame) = s ! frame \<and>
      list_all (\<lambda>k. kp_visibility k = 0) (map (keypoint_of w h) lms)"
    if "list_all (\<lambda>lm. lm_visibility lm = 0) lms"
  proof -
    from that have "list_all (\<lambda>lm. lm_visibility lm \<le> 1 / 2) lms"
      by (simp add: list_all_iff)
    from overlay_invisible [OF this n] that show ?thesis
      by (simp add: list_all_iff keypoint_of_def)
  qed
  show ?thesis
    using z by (simp add: a b extract_keypoints_map assms(2)) (simp add: overlay_def)
qed

theorem drawing_threshold_witness:
  "snd (analyze_frame canvas_cv (still_pose 0) 0 [blank]) ! 1 = blank \<and>
   list_all (\<lambda>k. kp_visibility k = 0) (extract_keypoints 3 3 (replicate 33 (centre 0)) []) \<and>
   analyze_and_annotate_frame canvas_cv (still_pose 1) 0 [blank] =
     (Inr (1, True),
      [blank,
       ((3, 3), replicate 14 (LineCall (1, 1) (1, 1) (0, 0, 255) 2) @
                replicate 13 (CircleCall (1, 1) 3 (0, 255, 0) (- 1)))])"
proof -
  have v: "both_visible (replicate 33 (centre 1)) c" for c
    unfolding both_visible_def nth_still [OF enum_value_33] by (simp add: centre_def)
  have m: "marker_visible (replicate 33 (centre 1)) l" for l
    unfolding marker_visible_def nth_still [OF enum_value_33] by (simp add: centre_def)
  have lc: "line_call canvas_cv 3 3 (replicate 33 (centre 1)) f c =
      (fst f, snd f @ [LineCall (1, 1) (1, 1) (0, 0, 255) 2])" for f c
    unfolding line_call_def nth_still [OF enum_value_33] pixel_centre
    by (simp add: canvas_cv_def)
  have cc: "circle_call canvas_cv 3 3 (replicate 33 (centre 1)) f l =
      (fst f, snd f @ [CircleCall (1, 1) 3 (0, 255, 0) (- 1)])" for f l
    unfolding circle_call_def nth_still [OF enum_value_33] pixel_centre
    by (simp add: canvas_cv_def)
  have z: "list_all (\<lambda>lm. lm_visibility lm = 0) (replicate 33 (centre 0))"
    by (simp add: list_all_iff centre_def)
  have p: "still_pose u (cv_cvtColor canvas_cv ([blank] ! 0)) = Some (replicate 33 (centre u))"
    for u by (simp add: still_pose_def)
  have n: "length (replicate 33 (centre u)) = NUM_LANDMARKS" for u
    by (simp add: NUM_LANDMARKS_def)
  have sh: "cv_shape canvas_cv ([blank] ! 0) = (3, 3)"
    by (simp add: canvas_cv_def blank_def)
  from drawing_threshold [where pose = "still_pose 0" and cv = canvas_cv and s = "[blank]"
      and frame = 0, OF p n sh] z
  have "snd (analyze_frame canvas_cv (still_pose 0) 0 [blank]) ! length [blank] = [blank] ! 0 \<and>
      list_all (\<lambda>k. kp_visibility k = 0) (extract_keypoints 3 3 (replicate 33 (centre 0)) [])"
    by blast
  then have zero: "snd (analyze_frame canvas_cv (still_pose 0) 0 [blank]) ! 1 = blank \<and>
      list_all (\<lambda>k. kp_visibility k = 0) (extract_keypoints 3 3 (replicate 33 (centre 0)) [])"
    by simp
  from drawing_threshold [where pose = "still_pose 1" and cv = canvas_cv and s = "[blank]"
      and frame = 0, OF p n sh]
  have one: "analyze_and_annotate_frame canvas_cv (still_pose 1) 0 [blank] =
     (Inr (1, True),
      [blank,
       ((3, 3), replicate 14 (LineCall (1, 1) (1, 1) (0, 0, 255) 2) @
                replicate 13 (CircleCall (1, 1) 3 (0, 255, 0) (- 1)))])"
    by (simp add: v m) (simp add: lc cc SIMPLE_CONNECTIONS_def KEY_LANDMARKS_def blank_def
        rep14 rep13)
  from zero one show ?thesis by simp
qed

text \<open>
  C4: when the pose model finds no landmarks, the renderer returns a new buffer with
  the content of the input frame, the empty keypoint list and the flag false, as a
  normal result and not an exception; the desktop renderer returns the copy and false.
\<close>

theorem no_landmarks_result:
  assumes "pose (cv_cvtColor cv (s ! frame)) = None"
  shows "analyze_frame cv pose frame s = (Inr (length s, [], False), s @ [s ! frame]) \<and>
    snd (analyze_frame cv pose frame s) ! length s = s ! frame \<and>
    analyze_and_annotate_frame cv pose frame s = (Inr (length s, False), s @ [s ! frame])"
  by (simp add: analyze_frame_none [where pose = pose and cv = cv and s = s and frame = frame, OF assms]
      analyze_and_annotate_frame_none [where pose = pose and cv = cv and s = s and frame = frame, OF assms])

theorem no_landmarks_result_witness:
  "analyze_frame canvas_cv no_pose 0 [blank] = (Inr (1, [], False), [blank, blank]) \<and>
   analyze_and_annotate_frame canvas_cv no_pose 0 [blank] = (Inr (1, False), [blank, blank])"
  using no_landmarks_result [of no_pose canvas_cv "[blank]" 0]
  by (simp add: no_pose_def)

text \<open>
  C5 (as the specification states it): every batch request with more than 50 frame
  indices is answered with status 400. This fails when the named video does not exist:
  the handler tests the path first and answers 404, here for 51 indices.
\<close>

theorem batch_limit_counterexample:
  "analyze_batch_frames canvas_cv no_pose uploads_path no_files ''clip.mp4''
     (batch_body (replicate 51 0)) = ((404, Error ''Video not found''), []) \<and>
   body_frame_indices (batch_body (replicate 51 0)) = Some (replicate 51 0) \<and>
   50 < length (replicate 51 (0::nat))"
  by (simp add: analyze_batch_frames_def no_files_def batch_body_def)

text \<open>
  C5 (amended): a batch request with more than 50 frame indices that names an uploaded
  video is answered with status 400 and the error "Too many frames (max 50)"; when the
  named video does not exist the answer is 404 "Video not found". In both cases no
  frame is read and none is analyzed.
\<close>

theorem batch_limit:
  assumes "body_frame_indices data = Some idxs" and "50 < length idxs"
  shows "analyze_batch_frames cv pose upload_path fs filename data =
    (if fs (upload_path filename) = None then (404, Error ''Video not found'')
     else (400, Error ''Too many frames (max 50)''), [])"
  using assms by (simp add: analyze_batch_frames_def split: option.splits)

theorem batch_limit_witness:
  "analyze_batch_frames canvas_cv (still_pose 1) uploads_path one_video ''clip.mp4''
     (batch_body (replicate 51 0)) = ((400, Error ''Too many frames (max 50)''), [])"
  using batch_limit [of "batch_body (replicate 51 0)" "replicate 51 0" canvas_cv
      "still_pose 1" uploads_path one_video "''clip.mp4''"]
  by (simp add: batch_body_def one_video_def uploads_path_def)

text \<open>
  C6: for a batch request of at most 50 indices on an uploaded video, the answer has
  status 200 and one result per requested index that lies inside the stream, in the
  order requested; an index beyond the end of the stream is read, yields no result and
  no error, and the loop goes on with the next index. The pose model is assumed to keep
  to the length of the landmark enumeration.
\<close>

theorem batch_skips_unreadable:
  assumes "fs (upload_path filename) = Some file"
    and "body_frame_indices data = Some idxs"
    and "length idxs \<le> 50"
    and "fixed_length pose"
  shows "analyze_batch_frames cv pose upload_path fs filename data =
    ((200, Results (map (\<lambda>i. analysis_of cv pose i (video_frames file ! i))
                      (filter (\<lambda>i. i < length (video_frames file)) idxs))),
     concat (map (events_of (video_frames file)) idxs))"
  using assms(1-3)
  by (simp add: analyze_batch_frames_def batch_loop_run [OF assms(4)])

theorem batch_skips_unreadable_witness:
  "analyze_batch_frames canvas_cv no_pose uploads_path one_video ''clip.mp4''
     (batch_body [0, 7, 1]) =
    ((200, Results [(0, False, [], ''data:image/jpeg;base64,jpeg''),
                    (1, False, [], ''data:image/jpeg;base64,jpeg'')]),
     [CapRead 0, PoseProcess 0, CapRead 7, CapRead 1, PoseProcess 1])"
proof -
  have f: "fixed_length no_pose" by (simp add: fixed_length_def no_pose_def)
  have p: "one_video (uploads_path ''clip.mp4'') = Some (Video [blank, blank])"
    by (simp add: one_video_def uploads_path_def)
  have b: "body_frame_indices (batch_body [0, 7, 1]) = Some [0, 7, 1]"
    by (simp add: batch_body_def)
  from batch_skips_unreadable [where fs = one_video and upload_path = uploads_path
      and filename = "''clip.mp4''" and cv = canvas_cv, OF p b _ f]
  show ?thesis
    by (simp add: video_frames_def analysis_of_def keypoints_of_def rendered_def
        no_pose_def events_of_def data_url_def canvas_cv_def)
qed

text \<open>
  C7: for a frame index beyond the end of the stream of an uploaded video, the
  get-frame handler and the single-frame analyze handler answer 404 with the error
  "Frame not found", and \<^verbatim>\<open>read_frame\<close> of the desktop tool raises \<^verbatim>\<open>RuntimeError\<close>.
\<close>

theorem frame_not_found:
  assumes "fs (upload_path filename) = Some (Video frames)"
    and "length frames \<le> i"
    and "body_frame_index data = Some i"
  shows "get_frame cv upload_path fs filename i =
      ((404, Error ''Frame not found''), [CapRead i]) \<and>
    analyze_frame_endpoint cv pose upload_path fs filename data =
      ((404, Error ''Frame not found''), [CapRead i]) \<and>
    read_frame fs (upload_path filename) i = Inl (RuntimeError_could_not_grab i)"
  using assms
  by (simp add: get_frame_def analyze_frame_endpoint_def read_frame_def cap_read_def
      video_frames_def)

theorem frame_not_found_witness:
  "get_frame canvas_cv uploads_path one_video ''clip.mp4'' 2 =
      ((404, Error ''Frame not found''), [CapRead 2]) \<and>
   analyze_frame_endpoint canvas_cv (still_pose 1) uploads_path one_video ''clip.mp4''
      \<lparr>body_frame_index = Some 2, body_frame_indices = None\<rparr> =
      ((404, Error ''Frame not found''), [CapRead 2]) \<and>
   read_frame one_video (uploads_path ''clip.mp4'') 2 = Inl (RuntimeError_could_not_grab 2)"
proof -
  have p: "one_video (uploads_path ''clip.mp4'') = Some (Video [blank, blank])"
    by (simp add: one_video_def uploads_path_def)
  from frame_not_found [where fs = one_video and upload_path = uploads_path
      and filename = "''clip.mp4''" and i = 2 and cv = canvas_cv and pose = "still_pose 1"
      and data = "\<lparr>body_frame_index = Some 2, body_frame_indices = None\<rparr>", OF p]
  show ?thesis by simp
qed

text \<open>
  C8: the renderer leaves every buffer that existed before the call as it was, the
  input frame among them: the store after the call is the store before it with exactly
  one new buffer appended, and the annotated frame returned is that new buffer, a
  reference different from the input's. This holds also when the call raises.
\<close>

theorem input_frame_untouched:
  assumes "frame < length s"
  shows "take (length s) (snd (analyze_frame cv pose frame s)) = s \<and>
    snd (analyze_frame cv pose frame s) ! frame = s ! frame \<and>
    length (snd (analyze_frame cv pose frame s)) = Suc (length s) \<and>
    (\<forall>r. fst (analyze_frame cv pose frame s) = Inr r \<longrightarrow>
       fst r = length s \<and> fst r \<noteq> frame) \<and>
    take (length s) (snd (analyze_and_annotate_frame cv pose frame s)) = s \<and>
    snd (analyze_and_annotate_frame cv pose frame s) ! frame = s ! frame \<and>
    length (snd (analyze_and_annotate_frame cv pose frame s)) = Suc (length s) \<and>
    (\<forall>r. fst (analyze_and_annotate_frame cv pose frame s) = Inr r \<longrightarrow>
       fst r = length s \<and> fst r \<noteq> frame)"
proof -
  note a = analyze_frame_store [of cv pose frame s]
  note b = analyze_and_annotate_frame_store [of cv pose frame s]
  from a have a1: "snd (analyze_frame cv pose frame s) ! frame = s ! frame"
    using prefix_nth [OF _ assms] by blast
  from b have b1: "snd (analyze_and_annotate_frame cv pose frame s) ! frame = s ! frame"
    using prefix_nth [OF _ assms] by blast
  from assms have ne: "length s \<noteq> frame" by simp
  from a b a1 b1 ne show ?thesis by auto
qed

theorem input_frame_untouched_witness:
  "snd (analyze_frame canvas_cv (still_pose 1) 0 [blank]) ! 0 = blank \<and>
   length (snd (analyze_frame canvas_cv (still_pose 1) 0 [blank])) = 2 \<and>
   take 1 (snd (analyze_and_annotate_frame canvas_cv (still_pose 1) 0 [blank])) = [blank] \<and>
   map_sum id fst (fst (analyze_frame canvas_cv (still_pose 1) 0 [blank])) = Inr 1 \<and>
   map_sum id fst (fst (analyze_and_annotate_frame canvas_cv (still_pose 1) 0 [blank])) = Inr 1"
proof -
  note u = input_frame_untouched [of 0 "[blank]" canvas_cv "still_pose 1"]
  obtain r where r: "fst (analyze_frame canvas_cv (still_pose 1) 0 [blank]) = Inr r"
    using analyze_frame_total [OF fixed_length_still, of canvas_cv 1 0 "[blank]"] by simp
  obtain q where q: "fst (analyze_and_annotate_frame canvas_cv (still_pose 1) 0 [blank]) = Inr q"
    using analyze_and_annotate_frame_total [OF fixed_length_still, of canvas_cv 1 0 "[blank]"]
    by simp
  from u r have "fst r = 1" by simp
  moreover from u q have "fst q = 1" by simp
  ultimately show ?thesis using u r q by simp
qed

text \<open>
  C9: every index of the Joint Set and of the Bone Set is below the number of members
  of the landmark enumeration, so on a landmark list of that length neither drawing
  loop raises \<^verbatim>\<open>IndexError\<close>, and with a pose model that keeps to that length the
  renderer always returns a result.
\<close>

theorem indices_in_range:
  "list_all (\<lambda>l. enum_value l < NUM_LANDMARKS) KEY_LANDMARKS \<and>
   list_all (\<lambda>c. enum_value (fst c) < NUM_LANDMARKS \<and> enum_value (snd c) < NUM_LANDMARKS)
     SIMPLE_CONNECTIONS \<and>
   (length lms = NUM_LANDMARKS \<longrightarrow>
      fst (draw_connections cv w h lms ann SIMPLE_CONNECTIONS s) = Inr () \<and>
      fst (draw_landmarks cv w h lms ann KEY_LANDMARKS s) = Inr ()) \<and>
   (fixed_length pose \<longrightarrow>
      (\<exists>r. fst (analyze_frame cv pose frame s) = Inr r) \<and>
      (\<exists>r. fst (analyze_and_annotate_frame cv pose frame s) = Inr r))"
proof (intro conjI impI)
  show "list_all (\<lambda>l. enum_value l < NUM_LANDMARKS) KEY_LANDMARKS"
    by (rule landmarks_in_range) simp
  show "list_all (\<lambda>c. enum_value (fst c) < NUM_LANDMARKS \<and> enum_value (snd c) < NUM_LANDMARKS)
     SIMPLE_CONNECTIONS"
    by (rule connections_in_range) simp
next
  assume n: "length lms = NUM_LANDMARKS"
  then have le: "NUM_LANDMARKS \<le> length lms" by simp
  show "fst (draw_connections cv w h lms ann SIMPLE_CONNECTIONS s) = Inr ()"
    by (rule draw_connections_no_error) (rule connections_in_range [OF le])
  show "fst (draw_landmarks cv w h lms ann KEY_LANDMARKS s) = Inr ()"
    by (rule draw_landmarks_no_error) (rule landmarks_in_range [OF le])
next
  assume f: "fixed_length pose"
  show "\<exists>r. fst (analyze_frame cv pose frame s) = Inr r"
    by (simp add: analyze_frame_total [OF f])
  show "\<exists>r. fst (analyze_and_annotate_frame cv pose frame s) = Inr r"
    by (simp add: analyze_and_annotate_frame_total [OF f])
qed

theorem indices_in_range_witness:
  "list_all (\<lambda>l. enum_value l < NUM_LANDMARKS) KEY_LANDMARKS \<and>
   fst (draw_connections canvas_cv 3 3 (replicate 33 (centre 1)) 0 SIMPLE_CONNECTIONS [blank])
     = Inr () \<and>
   fst (draw_landmarks canvas_cv 3 3 (replicate 33 (centre 1)) 0 KEY_LANDMARKS [blank])
     = Inr () \<and>
   (\<exists>r. fst (analyze_frame canvas_cv (still_pose 1) 0 [blank]) = Inr r)"
  using indices_in_range
    [of "replicate 33 (centre 1)" canvas_cv 3 3 0 "[blank]" "still_pose 1" 0]
    fixed_length_still [of 1]
  by (simp add: NUM_LANDMARKS_def)

text \<open>
  C10: a body of the single-frame analyze request without \<^verbatim>\<open>frame_index\<close> is handled
  exactly as one with \<^verbatim>\<open>frame_index\<close> 0; when the named video has a first frame, the
  answer has status 200 and carries the analysis of frame 0.
\<close>

theorem missing_frame_index_defaults_to_zero:
  "analyze_frame_endpoint cv pose upload_path fs filename (data\<lparr>body_frame_index := None\<rparr>) =
     analyze_frame_endpoint cv pose upload_path fs filename (data\<lparr>body_frame_index := Some 0\<rparr>) \<and>
   (fs (upload_path filename) = Some (Video (frame0 # frames)) \<and> fixed_length pose \<longrightarrow>
      analyze_frame_endpoint cv pose upload_path fs filename (data\<lparr>body_frame_index := None\<rparr>) =
        ((200, Analysis (analysis_of cv pose 0 frame0)), [CapRead 0, PoseProcess 0]))"
proof (intro conjI impI)
  show "analyze_frame_endpoint cv pose upload_path fs filename (data\<lparr>body_frame_index := None\<rparr>) =
     analyze_frame_endpoint cv pose upload_path fs filename (data\<lparr>body_frame_index := Some 0\<rparr>)"
    by (simp add: analyze_frame_endpoint_def)
next
  assume h: "fs (upload_path filename) = Some (Video (frame0 # frames)) \<and> fixed_length pose"
  then have f: "fixed_length pose" by simp
  have a: "analyze_frame cv pose 0 [frame0] =
      (Inr (Suc 0, keypoints_of cv pose frame0, pose (cv_cvtColor cv frame0) \<noteq> None),
       [frame0, rendered cv pose frame0])"
    using analyze_frame_total [OF f, of cv 0 "[frame0]"] by simp
  from h show "analyze_frame_endpoint cv pose upload_path fs filename
      (data\<lparr>body_frame_index := None\<rparr>) =
        ((200, Analysis (analysis_of cv pose 0 frame0)), [CapRead 0, PoseProcess 0])"
    by (simp add: analyze_frame_endpoint_def cap_read_def video_frames_def a analysis_of_def)
qed

theorem missing_frame_index_defaults_to_zero_witness:
  "analyze_frame_endpoint canvas_cv no_pose uploads_path one_video ''clip.mp4'' empty_body =
     ((200, Analysis (0, False, [], ''data:image/jpeg;base64,jpeg'')),
      [CapRead 0, PoseProcess 0])"
proof -
  have f: "fixed_length no_pose" by (simp add: fixed_length_def no_pose_def)
  have p: "one_video (uploads_path ''clip.mp4'') = Some (Video [blank, blank])"
    by (simp add: one_video_def uploads_path_def)
  have e: "empty_body\<lparr>body_frame_index := None\<rparr> = empty_body"
    by (simp add: empty_body_def)
  from missing_frame_index_defaults_to_zero
    [of canvas_cv no_pose uploads_path one_video "''clip.mp4''" empty_body blank "[blank]"]
  have "analyze_frame_endpoint canvas_cv no_pose uploads_path one_video ''clip.mp4''
      (empty_body\<lparr>body_frame_index := None\<rparr>) =
        ((200, Analysis (analysis_of canvas_cv no_pose 0 blank)), [CapRead 0, PoseProcess 0])"
    using p f by blast
  then show ?thesis
    by (simp add: e analysis_of_def keypoints_of_def rendered_def no_pose_def data_url_def
        canvas_cv_def)
qed

end
